theory Spec2Isabelle
  imports Complex_Main
begin

section \<open>Events\<close>

text \<open>
  An Event of \<^verbatim>\<open>Profiler.py\<close>. The readings of \<^verbatim>\<open>time.perf_counter()\<close> are seconds on a
  monotonic clock; they are modelled as real numbers. The reading taken by the constructor
  is passed in as \<open>now\<close>. The field \<^verbatim>\<open>end\<close> is called \<open>endt\<close> here, with \<open>None\<close> for
  Python's \<^verbatim>\<open>None\<close>.
\<close>

record Event =
  state :: string
  comment :: "string option"
  records :: "int option"
  start :: real
  endt :: "real option"

definition Event_init :: "real \<Rightarrow> string \<Rightarrow> string option \<Rightarrow> int option \<Rightarrow> Event" where
  "Event_init now st c r =
     \<lparr>state = st, comment = c, records = r, start = now, endt = None\<rparr>"

definition set_end :: "Event \<Rightarrow> real \<Rightarrow> Event" where
  "set_end e counter = e\<lparr>endt := Some counter\<rparr>"

section \<open>The store connection\<close>

text \<open>
  The database connection is the environment of the Profiler. Its model keeps the two
  tables the code writes to, once as committed (\<open>durable\<close>) and once as seen inside the
  open transaction (\<open>working\<close>), whether the connection was closed, and a \<open>trace\<close> of every
  call made on it. Whether a statement or a commit succeeds is decided by the store: the
  \<open>script\<close> lists the outcomes of the coming \<^verbatim>\<open>execute\<close> and \<^verbatim>\<open>commit\<close> calls, \<open>True\<close> for
  success, \<open>False\<close> for a raised database error; an exhausted script means success.
\<close>

datatype error = DatabaseError | TypeError

record EventRow =
  row_profile_id :: int
  row_state :: string
  row_started :: real
  row_ended :: real
  row_records :: "int option"
  row_comment :: "string option"

record ProfileRow =
  prof_id :: int
  prof_name :: string
  prof_comment :: "string option"
  prof_ended :: "real option"

record Tables =
  profiles_tab :: "ProfileRow list"
  events_tab :: "EventRow list"

datatype statement =
    Insert_profile string "string option"
  | Insert_event EventRow
  | Update_ended int real

datatype call = Cursor | Execute statement | Commit | Cursor_close | Close

record Connection =
  durable :: Tables
  working :: Tables
  closed :: bool
  script :: "bool list"
  trace :: "call list"

fun next_outcome :: "bool list \<Rightarrow> bool \<times> bool list" where
  "next_outcome [] = (True, [])"
| "next_outcome (ok # rest) = (ok, rest)"

text \<open>The id a new profile row receives: one more than the ids in the table.\<close>

definition new_id :: "Tables \<Rightarrow> int" where
  "new_id t = int (length (profiles_tab t)) + 1"

fun apply_statement :: "statement \<Rightarrow> Tables \<Rightarrow> Tables" where
  "apply_statement (Insert_profile n c) t =
     t\<lparr>profiles_tab := profiles_tab t @
        [\<lparr>prof_id = new_id t, prof_name = n, prof_comment = c, prof_ended = None\<rparr>]\<rparr>"
| "apply_statement (Insert_event r) t = t\<lparr>events_tab := events_tab t @ [r]\<rparr>"
| "apply_statement (Update_ended i ts) t =
     t\<lparr>profiles_tab :=
        map (\<lambda>r. if prof_id r = i then r\<lparr>prof_ended := Some ts\<rparr> else r) (profiles_tab t)\<rparr>"

definition cursor :: "Connection \<Rightarrow> Connection" where
  "cursor c = c\<lparr>trace := trace c @ [Cursor]\<rparr>"

definition execute :: "statement \<Rightarrow> Connection \<Rightarrow> (error + unit) \<times> Connection" where
  "execute s c =
     (case next_outcome (script c) of
        (ok, rest) \<Rightarrow>
          (let c1 = c\<lparr>script := rest, trace := trace c @ [Execute s]\<rparr>
           in if ok then (Inr (), c1\<lparr>working := apply_statement s (working c1)\<rparr>)
              else (Inl DatabaseError, c1)))"

definition commit :: "Connection \<Rightarrow> (error + unit) \<times> Connection" where
  "commit c =
     (case next_outcome (script c) of
        (ok, rest) \<Rightarrow>
          (let c1 = c\<lparr>script := rest, trace := trace c @ [Commit]\<rparr>
           in if ok then (Inr (), c1\<lparr>durable := working c1\<rparr>)
              else (Inl DatabaseError, c1)))"

definition cursor_close :: "Connection \<Rightarrow> Connection" where
  "cursor_close c = c\<lparr>trace := trace c @ [Cursor_close]\<rparr>"

definition close :: "Connection \<Rightarrow> Connection" where
  "close c = c\<lparr>closed := True, working := durable c, trace := trace c @ [Close]\<rparr>"

section \<open>The Profiler\<close>

text \<open>
  The fields of the class. \<^verbatim>\<open>self.start\<close> is \<open>pstart\<close> here, since \<open>start\<close> is the field of
  an Event. \<open>created\<close> and \<open>pstart\<close> are readings of \<^verbatim>\<open>datetime.datetime.now()\<close>, in
  seconds on the wall clock; \<open>offset\<close> is a reading of the monotonic clock.
\<close>

record Profiler =
  name :: string
  db :: Connection
  pid :: int
  events :: "Event list"
  pstart :: real
  offset :: real
  created :: real

text \<open>
  \<^verbatim>\<open>append\<close>: the new Event is added at the end; when the buffer then holds more than one
  Event, \<^verbatim>\<open>self.events[-1].set_end(self.events[-1].start)\<close> runs, on the last Event.
\<close>

definition append :: "real \<Rightarrow> string \<Rightarrow> string option \<Rightarrow> int option \<Rightarrow> Profiler \<Rightarrow> Profiler" where
  "append now st c r p =
     (let evs = events p @ [Event_init now st c r] in
      if length evs > 1
      then p\<lparr>events := evs[length evs - 1 :=
                 set_end (evs ! (length evs - 1)) (start (evs ! (length evs - 1)))]\<rparr>
      else p\<lparr>events := evs\<rparr>)"

text \<open>
  The loop of \<^verbatim>\<open>flush\<close> over \<^verbatim>\<open>range(len(self.events)-1)\<close>, as a recursion over the list of
  indices. A row holds the datetime that is written, as a real number of seconds; the
  text that \<^verbatim>\<open>strftime\<close> makes of it is given apart, by \<open>strftime_Ydm\<close>. Subtracting from an unset \<^verbatim>\<open>end\<close> raises a type error. An
  exception leaves the loop with the Profiler as it is at that moment.
\<close>

fun flush_rows :: "nat list \<Rightarrow> Profiler \<Rightarrow> (error + unit) \<times> Profiler" where
  "flush_rows [] p = (Inr (), p)"
| "flush_rows (i # is) p =
     (let p1 = p\<lparr>events :=
                 (events p)[i := set_end (events p ! i) (start (events p ! (i + 1)))]\<rparr>;
          started = created p1 + (start (events p1 ! i) - offset p1)
      in case endt (events p1 ! i) of
           None \<Rightarrow> (Inl TypeError, p1)
         | Some e \<Rightarrow>
             (let ended = created p1 + (e - offset p1);
                  row = \<lparr>row_profile_id = pid p1, row_state = state (events p1 ! i),
                         row_started = started, row_ended = ended,
                         row_records = records (events p1 ! i),
                         row_comment = comment (events p1 ! i)\<rparr>
              in case execute (Insert_event row) (db p1) of
                   (Inl err, c) \<Rightarrow> (Inl err, p1\<lparr>db := c\<rparr>)
                 | (Inr _, c) \<Rightarrow> flush_rows is (p1\<lparr>db := c\<rparr>)))"

text \<open>
  \<^verbatim>\<open>flush\<close>. \<open>t1\<close> is the clock reading of the housekeeping Event, \<open>t2\<close> that of the Event
  appended at the end. \<^verbatim>\<open>self.events[-1:]\<close> keeps the last Event.
\<close>

definition flush :: "real \<Rightarrow> real \<Rightarrow> Profiler \<Rightarrow> (error + unit) \<times> Profiler" where
  "flush t1 t2 p =
     (if events p \<noteq> [] then
        (let prev_state = state (last (events p));
             prev_comment = comment (last (events p));
             prev_records = records (last (events p));
             p1 = append t1 ''Profiler Housekeeping'' None None p;
             p2 = p1\<lparr>db := cursor (db p1)\<rparr>
         in case flush_rows [0..<length (events p2) - 1] p2 of
              (Inl err, p3) \<Rightarrow> (Inl err, p3)
            | (Inr _, p3) \<Rightarrow>
                (let p4 = p3\<lparr>events := drop (length (events p3) - 1) (events p3)\<rparr>
                 in case commit (db p4) of
                      (Inl err, c) \<Rightarrow> (Inl err, p4\<lparr>db := c\<rparr>)
                    | (Inr _, c) \<Rightarrow>
                        (Inr (), append t2 prev_state prev_comment prev_records
                                   (p4\<lparr>db := cursor_close c\<rparr>))))
      else (Inr (), p))"

text \<open>
  \<^verbatim>\<open>__exit__\<close>. The three exception arguments are not read by the body; \<open>exc\<close> stands for
  them. \<open>ts\<close> is the store's \<^verbatim>\<open>current_timestamp\<close>.
\<close>

definition profiler_exit ::
  "error option \<Rightarrow> real \<Rightarrow> real \<Rightarrow> real \<Rightarrow> Profiler \<Rightarrow> (error + unit) \<times> Profiler" where
  "profiler_exit exc t1 t2 ts p =
     (case flush t1 t2 p of
        (Inl err, p1) \<Rightarrow> (Inl err, p1)
      | (Inr _, p1) \<Rightarrow>
          (case execute (Update_ended (pid p1) ts) (cursor (db p1)) of
             (Inl err, c) \<Rightarrow> (Inl err, p1\<lparr>db := c\<rparr>)
           | (Inr _, c) \<Rightarrow>
               (case commit c of
                  (Inl err, c1) \<Rightarrow> (Inl err, p1\<lparr>db := c1\<rparr>)
                | (Inr _, c1) \<Rightarrow> (Inr (), p1\<lparr>db := close (cursor_close c1)\<rparr>))))"

text \<open>
  \<^verbatim>\<open>create_new_profile\<close> and \<^verbatim>\<open>__init__\<close>, on a connection already opened. \<open>t_start\<close>,
  \<open>t_offset\<close> and \<open>t_created\<close> are the three clock readings of the constructor.
\<close>

definition create_new_profile ::
  "string \<Rightarrow> string option \<Rightarrow> Connection \<Rightarrow> (error + int) \<times> Connection" where
  "create_new_profile n c conn =
     (let new_row = new_id (working (cursor conn)) in
      case execute (Insert_profile n c) (cursor conn) of
        (Inl err, c1) \<Rightarrow> (Inl err, c1)
      | (Inr _, c1) \<Rightarrow>
          (case commit c1 of
             (Inl err, c2) \<Rightarrow> (Inl err, c2)
           | (Inr _, c2) \<Rightarrow> (Inr new_row, cursor_close c2)))"

definition Profiler_init ::
  "string \<Rightarrow> string option \<Rightarrow> Connection \<Rightarrow> real \<Rightarrow> real \<Rightarrow> real \<Rightarrow> error + Profiler" where
  "Profiler_init n c conn t_start t_offset t_created =
     (case create_new_profile n c conn of
        (Inl err, c1) \<Rightarrow> Inl err
      | (Inr i, c1) \<Rightarrow>
          Inr \<lparr>name = n, db = c1, pid = i, events = [], pstart = t_start,
               offset = t_offset, created = t_created\<rparr>)"

text \<open>A connection to an empty store on which every call succeeds, and the Profiler of
  the source's example run, created at wall-clock time 1000 with the monotonic clock at 5.\<close>

definition fresh_connection :: Connection where
  "fresh_connection =
     \<lparr>durable = \<lparr>profiles_tab = [], events_tab = []\<rparr>,
      working = \<lparr>profiles_tab = [], events_tab = []\<rparr>,
      closed = False, script = [], trace = []\<rparr>"

definition test_profiler :: Profiler where
  "test_profiler =
     \<lparr>name = ''Test'',
      db = \<lparr>durable = \<lparr>profiles_tab = [\<lparr>prof_id = 1, prof_name = ''Test'',
                         prof_comment = Some ''Sunday afternoon'', prof_ended = None\<rparr>],
                       events_tab = []\<rparr>,
            working = \<lparr>profiles_tab = [\<lparr>prof_id = 1, prof_name = ''Test'',
                         prof_comment = Some ''Sunday afternoon'', prof_ended = None\<rparr>],
                       events_tab = []\<rparr>,
            closed = False, script = [],
            trace = [Cursor, Execute (Insert_profile ''Test'' (Some ''Sunday afternoon'')),
                   Commit, Cursor_close]\<rparr>,
      pid = 1, events = [], pstart = 1000, offset = 5, created = 1000\<rparr>"

text \<open>The same Profiler with one Event in the buffer and a store that rejects the next
  statement.\<close>

definition failing_profiler :: Profiler where
  "failing_profiler =
     (append 1 ''a'' None None test_profiler)\<lparr>db := (db test_profiler)\<lparr>script := [False]\<rparr>\<rparr>"

section \<open>The text of a timestamp\<close>

text \<open>
  Lines 97 and 98 hand the store a text: the datetime \<^verbatim>\<open>self.created + timedelta(...)\<close>
  formatted by \<^verbatim>\<open>strftime('%Y-%d-%m %H:%M:%S.%f')\<close>. A datetime is given here by its
  calendar fields, and the format is spelled out for years of four digits: year, then
  day, then month, each field padded with zeros.
\<close>

record datetime =
  dt_year :: nat
  dt_month :: nat
  dt_day :: nat
  dt_hour :: nat
  dt_minute :: nat
  dt_second :: nat
  dt_microsecond :: nat

definition digit :: "nat \<Rightarrow> char" where
  "digit n = ''0123456789'' ! (n mod 10)"

definition two_digits :: "nat \<Rightarrow> string" where
  "two_digits n = [digit (n div 10), digit n]"

definition four_digits :: "nat \<Rightarrow> string" where
  "four_digits n = [digit (n div 1000), digit (n div 100), digit (n div 10), digit n]"

definition six_digits :: "nat \<Rightarrow> string" where
  "six_digits n = [digit (n div 100000), digit (n div 10000), digit (n div 1000),
                   digit (n div 100), digit (n div 10), digit n]"

definition strftime_Ydm :: "datetime \<Rightarrow> string" where
  "strftime_Ydm d =
     four_digits (dt_year d) @ ''-'' @ two_digits (dt_day d) @ ''-'' @ two_digits (dt_month d) @
     '' '' @ two_digits (dt_hour d) @ '':'' @ two_digits (dt_minute d) @ '':'' @
     two_digits (dt_second d) @ ''.'' @ six_digits (dt_microsecond d)"

section \<open>Notions used in the statements\<close>

text \<open>
  The row that the loop of \<^verbatim>\<open>flush\<close> writes for an Event \<open>e\<close> whose successor in the buffer
  starts at \<open>nxt\<close>, and the rows written by a flush whose housekeeping Event starts at
  \<open>t1\<close>: one for every Event that was in the buffer.
\<close>

definition row_of :: "Profiler \<Rightarrow> Event \<Rightarrow> real \<Rightarrow> EventRow" where
  "row_of p e nxt =
     \<lparr>row_profile_id = pid p, row_state = state e,
      row_started = created p + (start e - offset p),
      row_ended = created p + (nxt - offset p),
      row_records = records e, row_comment = comment e\<rparr>"

definition flushed :: "Profiler \<Rightarrow> real \<Rightarrow> EventRow list" where
  "flushed p t1 =
     map (\<lambda>k. row_of p (events p ! k)
                 (start ((events p @ [Event_init t1 ''Profiler Housekeeping'' None None]) ! Suc k)))
         [0..<length (events p)]"

text \<open>What an Event is apart from its end: the values given by the caller and the start.\<close>

definition core :: "Event \<Rightarrow> string \<times> string option \<times> int option \<times> real" where
  "core e = (state e, comment e, records e, start e)"

text \<open>The conversion law of the specification, for a monotonic timestamp \<open>t\<close>.\<close>

definition wall_clock :: "Profiler \<Rightarrow> real \<Rightarrow> real" where
  "wall_clock p t = created p + (t - offset p)"

text \<open>
  Contiguity as the specification states it: every Event but the last has its end set,
  to the start of the next Event.
\<close>

definition contiguous :: "Event list \<Rightarrow> bool" where
  "contiguous evs =
     list_all (\<lambda>i. endt (evs ! i) = Some (start (evs ! Suc i))) [0..<length evs - 1]"

text \<open>
  The buffer invariant as the specification states it: an end that is set is not before
  the start, and the end is unset for the last Event of the buffer and for no other.
\<close>

definition buffer_inv :: "Event list \<Rightarrow> bool" where
  "buffer_inv evs =
     (list_all (\<lambda>e. case endt e of None \<Rightarrow> True | Some t \<Rightarrow> start e \<le> t) evs \<and>
      list_all (\<lambda>i. (endt (evs ! i) = None) = (Suc i = length evs)) [0..<length evs])"

section \<open>Events and store calls\<close>

lemma test_profiler_init:
  "Profiler_init ''Test'' (Some ''Sunday afternoon'') fresh_connection 1000 5 1000
     = Inr test_profiler"
  by (simp add: Profiler_init_def create_new_profile_def execute_def commit_def cursor_def
      cursor_close_def fresh_connection_def test_profiler_def new_id_def)

lemma core_set_end [simp]: "core (set_end e t) = core e"
  by (simp add: core_def set_end_def)

lemma endt_set_end [simp]: "endt (set_end e t) = Some t"
  by (simp add: set_end_def)

lemma set_end_fields [simp]:
  "state (set_end e t) = state e" "comment (set_end e t) = comment e"
  "records (set_end e t) = records e" "start (set_end e t) = start e"
  by (simp_all add: set_end_def)

lemma row_of_core: "core e = core e' \<Longrightarrow> row_of p e n = row_of p e' n"
  by (simp add: row_of_def core_def)

lemma start_core: "core e = core e' \<Longrightarrow> start e = start e'"
  by (simp add: core_def)

lemma row_of_frame [simp]: "row_of (p\<lparr>events := E\<rparr>) = row_of p" "row_of (p\<lparr>db := D\<rparr>) = row_of p"
  by (simp_all add: row_of_def fun_eq_iff)

lemma core_update_nth:
  "k < length xs \<Longrightarrow> core (xs[i := set_end (xs ! i) t] ! k) = core (xs ! k)"
  by (cases "k = i") simp_all

lemma next_outcome_ok:
  "False \<notin> set (take (Suc n) scr) \<Longrightarrow> next_outcome scr = (True, tl scr)"
  by (cases scr) auto

lemma execute_ok:
  "False \<notin> set (take (Suc n) (script c)) \<Longrightarrow>
   execute s c = (Inr (), c\<lparr>script := tl (script c), trace := trace c @ [Execute s],
                         working := apply_statement s (working c)\<rparr>)"
  by (simp add: execute_def next_outcome_ok)

lemma commit_ok:
  "False \<notin> set (take (Suc n) (script c)) \<Longrightarrow>
   commit c = (Inr (), c\<lparr>script := tl (script c), trace := trace c @ [Commit],
                         durable := working c\<rparr>)"
  by (simp add: commit_def next_outcome_ok)

section \<open>The loop of flush\<close>

lemma flush_rows_ok:
  assumes "\<forall>k\<in>set is. Suc k < length (events p)"
      and "False \<notin> set (take (length is) (script (db p)))"
  shows "\<exists>E. flush_rows is p =
           (Inr (), p\<lparr>events := E,
                      db := (db p)\<lparr>working := (working (db p))\<lparr>events_tab :=
                                events_tab (working (db p)) @
                                map (\<lambda>k. row_of p (events p ! k) (start (events p ! Suc k))) is\<rparr>,
                              script := drop (length is) (script (db p)),
                              trace := trace (db p) @
                                map (\<lambda>k. Execute (Insert_event
                                   (row_of p (events p ! k) (start (events p ! Suc k))))) is\<rparr>\<rparr>)
         \<and> length E = length (events p)
         \<and> (\<forall>k<length E. k \<notin> set is \<longrightarrow> E ! k = events p ! k)
         \<and> (\<forall>k<length E. core (E ! k) = core (events p ! k))"
  using assms
proof (induction "is" arbitrary: p)
  case Nil
  show ?case by (rule exI[of _ "events p"]) simp
next
  case (Cons i "is")
  let ?xs = "(events p)[i := set_end (events p ! i) (start (events p ! Suc i))]"
  let ?row = "row_of p (events p ! i) (start (events p ! Suc i))"
  let ?c = "(db p)\<lparr>script := tl (script (db p)), trace := trace (db p) @ [Execute (Insert_event ?row)],
                         working := apply_statement (Insert_event ?row) (working (db p))\<rparr>"
  let ?p1 = "p\<lparr>events := ?xs, db := ?c\<rparr>"
  have i: "Suc i < length (events p)" using Cons.prems(1) by simp
  have scr: "False \<notin> set (take (Suc (length is)) (script (db p)))" using Cons.prems(2) by simp
  have step: "flush_rows (i # is) p = flush_rows is ?p1"
    using i by (simp add: Let_def execute_ok[OF scr] row_of_def)
  have r1: "\<forall>k\<in>set is. Suc k < length (events ?p1)" using Cons.prems(1) by simp
  have r2: "False \<notin> set (take (length is) (script (db ?p1)))"
    using scr by (cases "script (db p)") auto
  from Cons.IH[OF r1 r2] obtain E where
    E: "flush_rows is ?p1 =
           (Inr (), ?p1\<lparr>events := E,
                      db := (db ?p1)\<lparr>working := (working (db ?p1))\<lparr>events_tab :=
                                events_tab (working (db ?p1)) @
                                map (\<lambda>k. row_of ?p1 (events ?p1 ! k) (start (events ?p1 ! Suc k))) is\<rparr>,
                              script := drop (length is) (script (db ?p1)),
                              trace := trace (db ?p1) @
                                map (\<lambda>k. Execute (Insert_event
                                   (row_of ?p1 (events ?p1 ! k) (start (events ?p1 ! Suc k))))) is\<rparr>\<rparr>)"
    and len: "length E = length (events ?p1)"
    and same: "\<forall>k<length E. k \<notin> set is \<longrightarrow> E ! k = events ?p1 ! k"
    and cor: "\<forall>k<length E. core (E ! k) = core (events ?p1 ! k)"
    by blast
  have rowk: "row_of p (?xs ! k) (start (?xs ! Suc k))
             = row_of p (events p ! k) (start (events p ! Suc k))" if "k \<in> set is" for k
  proof -
    from that have k: "Suc k < length (events p)" using Cons.prems(1) by simp
    then have "core (?xs ! k) = core (events p ! k)" "core (?xs ! Suc k) = core (events p ! Suc k)"
      by (simp_all add: core_update_nth)
    then show ?thesis
      by (simp add: row_of_def core_def)
  qed
  have rows: "map (\<lambda>k. row_of ?p1 (events ?p1 ! k) (start (events ?p1 ! Suc k))) is
            = map (\<lambda>k. row_of p (events p ! k) (start (events p ! Suc k))) is"
    by (rule map_cong[OF refl]) (use rowk in simp)
  have calls: "map (\<lambda>k. Execute (Insert_event (row_of ?p1 (events ?p1 ! k) (start (events ?p1 ! Suc k))))) is
            = map (\<lambda>k. Execute (Insert_event (row_of p (events p ! k) (start (events p ! Suc k))))) is"
    by (rule map_cong[OF refl]) (use rowk in simp)
  show ?case
    apply (rule exI[of _ E])
    apply (simp only: step E rows calls)
    using len same cor i
    apply (auto simp: drop_Suc tl_drop core_update_nth)
    done
qed


section \<open>append and a flush that succeeds\<close>

lemma append_eq:
  "append now st c r p =
     p\<lparr>events := events p @
        [\<lparr>state = st, comment = c, records = r, start = now,
          endt = if events p = [] then None else Some now\<rparr>]\<rparr>"
  by (simp add: append_def Let_def Event_init_def set_end_def)

lemma take_Suc_False:
  "False \<notin> set (take (Suc n) xs) \<Longrightarrow> False \<notin> set (take n xs)"
  by (meson in_set_takeD set_take_subset_set_take le_SucI order_refl subsetD)

lemma take_drop_False:
  "False \<notin> set (take (n + m) xs) \<Longrightarrow> False \<notin> set (take m (drop n xs))"
  by (metis Un_iff set_append take_add)

lemma flush_ok:
  assumes ne: "events p \<noteq> []"
      and ok: "False \<notin> set (take (Suc (length (events p))) (script (db p)))"
  shows "flush t1 t2 p =
     (Inr (),
      p\<lparr>events :=
          [\<lparr>state = ''Profiler Housekeeping'', comment = None, records = None,
            start = t1, endt = Some t1\<rparr>,
           \<lparr>state = state (last (events p)), comment = comment (last (events p)),
            records = records (last (events p)), start = t2, endt = Some t2\<rparr>],
        db := (db p)\<lparr>
          durable := (working (db p))\<lparr>events_tab :=
                        events_tab (working (db p)) @ flushed p t1\<rparr>,
          working := (working (db p))\<lparr>events_tab :=
                        events_tab (working (db p)) @ flushed p t1\<rparr>,
          script := drop (Suc (length (events p))) (script (db p)),
          trace := trace (db p) @ Cursor # map (\<lambda>r. Execute (Insert_event r)) (flushed p t1)
                     @ [Commit, Cursor_close]\<rparr>\<rparr>)"
proof -
  let ?N = "length (events p)"
  let ?hk = "\<lparr>state = ''Profiler Housekeeping'', comment = None, records = None,
            start = t1, endt = Some t1\<rparr>"
  let ?p2 = "p\<lparr>events := events p @ [?hk], db := cursor (db p)\<rparr>"
  have a1: "\<forall>k\<in>set [0..<?N]. Suc k < length (events ?p2)" by simp
  have a2: "False \<notin> set (take (length [0..<?N]) (script (db ?p2)))"
    using take_Suc_False[OF ok] by (simp add: cursor_def)
  have rowk: "row_of ?p2 (events ?p2 ! k) (start (events ?p2 ! Suc k))
            = row_of p (events p ! k)
                 (start ((events p @ [Event_init t1 ''Profiler Housekeeping'' None None]) ! Suc k))"
    if "k < ?N" for k
    using that by (simp add: nth_append Event_init_def)
  have rows: "map (\<lambda>k. row_of ?p2 (events ?p2 ! k) (start (events ?p2 ! Suc k))) [0..<?N]
            = flushed p t1"
    unfolding flushed_def by (rule map_cong[OF refl]) (use rowk in simp)
  have calls: "map (\<lambda>k. Execute (Insert_event
                   (row_of ?p2 (events ?p2 ! k) (start (events ?p2 ! Suc k))))) [0..<?N]
            = map (\<lambda>r. Execute (Insert_event r)) (flushed p t1)"
    unfolding flushed_def map_map comp_def by (rule map_cong[OF refl]) (use rowk in simp)
  from flush_rows_ok[OF a1 a2] obtain E where
    E: "flush_rows [0..<?N] ?p2 =
           (Inr (), ?p2\<lparr>events := E,
                      db := (db ?p2)\<lparr>working := (working (db ?p2))\<lparr>events_tab :=
                                events_tab (working (db ?p2)) @
                                map (\<lambda>k. row_of ?p2 (events ?p2 ! k) (start (events ?p2 ! Suc k))) [0..<?N]\<rparr>,
                              script := drop (length [0..<?N]) (script (db ?p2)),
                              trace := trace (db ?p2) @
                                map (\<lambda>k. Execute (Insert_event
                                   (row_of ?p2 (events ?p2 ! k) (start (events ?p2 ! Suc k))))) [0..<?N]\<rparr>\<rparr>)"
    and len: "length E = length (events ?p2)"
    and same: "\<forall>k<length E. k \<notin> set [0..<?N] \<longrightarrow> E ! k = events ?p2 ! k"
    by blast
  have lenE: "length E = Suc ?N" using len by simp
  have "E ! ?N = ?hk" using same lenE by simp
  then have dropE: "drop ?N E = [?hk]"
    using lenE by (metis Cons_nth_drop_Suc drop_all lessI order_refl)
  have ok3: "False \<notin> set (take (Suc 0) (drop ?N (script (db p))))"
    using take_drop_False[of ?N "Suc 0" "script (db p)"] ok by simp
  have p2: "append t1 ''Profiler Housekeeping'' None None p = p\<lparr>events := events p @ [?hk]\<rparr>"
    using ne by (simp add: append_eq)
  have E': "flush_rows [0..<?N]
              (p\<lparr>events := events p @ [?hk],
                 db := (db p)\<lparr>trace := trace (db p) @ [Cursor]\<rparr>\<rparr>) =
            (Inr (), p\<lparr>events := E,
               db := (db p)\<lparr>working := (working (db p))\<lparr>events_tab :=
                                    events_tab (working (db p)) @ flushed p t1\<rparr>,
                             script := drop ?N (script (db p)),
                             trace := trace (db p) @ Cursor #
                                map (\<lambda>r. Execute (Insert_event r)) (flushed p t1)\<rparr>\<rparr>)"
    using E unfolding rows calls by (simp add: cursor_def)
  show ?thesis
    unfolding flush_def Let_def p2
    using ne
    by (simp add: cursor_def E' lenE dropE commit_def next_outcome_ok[OF ok3]
          cursor_close_def append_eq drop_Suc tl_drop)
qed

section \<open>Claims about append\<close>

text \<open>
  C10. \<^verbatim>\<open>append\<close> validates nothing: for every state string, the empty one included, and
  every comment and record count, given or not, it returns normally, and the buffer is the
  old buffer followed by one Event with exactly these values and the clock reading as its
  start. No other field of the Profiler changes and the store is not touched.
\<close>

theorem append_no_validation:
  "butlast (events (append now st c r p)) = events p \<and>
   state (last (events (append now st c r p))) = st \<and>
   comment (last (events (append now st c r p))) = c \<and>
   records (last (events (append now st c r p))) = r \<and>
   start (last (events (append now st c r p))) = now \<and>
   (append now st c r p)\<lparr>events := events p\<rparr> = p \<and>
   length (events (append now [] None None p)) = Suc (length (events p))"
  by (simp add: append_eq)

text \<open>
  C1. The second \<^verbatim>\<open>append\<close> of a run leaves the end of the first Event unset and sets
  the end of the new Event to its own start: at clock readings 1 and 2 the buffer is not
  contiguous.
\<close>

theorem append_leaves_previous_end_unset:
  "events (append 2 ''b'' None None (append 1 ''a'' None None test_profiler)) =
     [\<lparr>state = ''a'', comment = None, records = None, start = 1, endt = None\<rparr>,
      \<lparr>state = ''b'', comment = None, records = None, start = 2, endt = Some 2\<rparr>] \<and>
   \<not> contiguous (events (append 2 ''b'' None None (append 1 ''a'' None None test_profiler)))"
  by (simp add: append_eq test_profiler_def contiguous_def)

text \<open>
  C6. After the same two calls the buffer invariant does not hold: the end of the first
  Event is unset although it is not the last, and the end of the last Event is set.
\<close>

theorem append_breaks_buffer_invariant:
  "\<not> buffer_inv (events (append 2 ''b'' None None (append 1 ''a'' None None test_profiler)))"
  by (simp add: append_eq test_profiler_def buffer_inv_def)

text \<open>
  The first half of the invariant does hold: \<^verbatim>\<open>append\<close> sets an end to the start of the
  same Event, so an end that is set is never before the start, after an \<^verbatim>\<open>append\<close> and
  in the buffer left by a flush.
\<close>

lemma append_ends_not_before_starts:
  assumes "list_all (\<lambda>e. case endt e of None \<Rightarrow> True | Some t \<Rightarrow> start e \<le> t) (events p)"
  shows "list_all (\<lambda>e. case endt e of None \<Rightarrow> True | Some t \<Rightarrow> start e \<le> t)
           (events (append now st c r p))"
  using assms by (simp add: append_eq)

lemma flush_ends_not_before_starts:
  assumes "events p \<noteq> []"
      and "False \<notin> set (take (Suc (length (events p))) (script (db p)))"
  shows "list_all (\<lambda>e. case endt e of None \<Rightarrow> True | Some t \<Rightarrow> start e \<le> t)
           (events (snd (flush t1 t2 p)))"
  by (simp add: flush_ok [OF assms])

section \<open>Claims about flush\<close>

text \<open>
  C9. \<^verbatim>\<open>flush\<close> on an empty buffer returns normally and gives back the Profiler as it
  was: no field changes, the buffer stays empty, and no call reaches the store (the
  trace of the connection is the same).
\<close>

theorem flush_empty_noop:
  "events p = [] \<Longrightarrow> flush t1 t2 p = (Inr (), p)"
  by (simp add: flush_def)

theorem flush_empty_noop_witness:
  "events test_profiler = [] \<and> flush 1 2 test_profiler = (Inr (), test_profiler)"
proof -
  have e: "events test_profiler = []" by (simp add: test_profiler_def)
  show ?thesis using e flush_empty_noop [OF e, of 1 2] by simp
qed

lemma map_nth_f: "map (\<lambda>k. f (xs ! k)) [0..<length xs] = map f xs"
  by (rule nth_equalityI) simp_all

lemma flushed_fields:
  "length (flushed p t1) = length (events p)"
  "map row_state (flushed p t1) = map state (events p)"
  "map row_records (flushed p t1) = map records (events p)"
  "map row_comment (flushed p t1) = map comment (events p)"
  "map row_started (flushed p t1) = map (\<lambda>e. created p + (start e - offset p)) (events p)"
  by (simp_all add: flushed_def row_of_def comp_def
      map_nth_f [of state "events p"] map_nth_f [of records "events p"]
      map_nth_f [of comment "events p"]
      map_nth_f [of "\<lambda>e. created p + (start e - offset p)" "events p"])

text \<open>
  C2, as the code has it. A flush of a buffer of N Events (N at least 1) on which the store
  calls succeed returns normally and commits N more rows: one for each Event that was in
  the buffer, in order, the active one included, each ending where the next Event (for the
  last one, the housekeeping Event) starts. The housekeeping Event is not written by this
  flush: it stays in the buffer, followed by a new Event with the state, comment and
  records of the Event that was active. The buffer holds two Events afterwards.
\<close>

theorem flush_persists_buffer:
  assumes "events p \<noteq> []"
      and "False \<notin> set (take (Suc (length (events p))) (script (db p)))"
  shows "fst (flush t1 t2 p) = Inr () \<and>
         events_tab (durable (db (snd (flush t1 t2 p)))) =
           events_tab (working (db p)) @ flushed p t1 \<and>
         length (flushed p t1) = length (events p) \<and>
         map row_state (flushed p t1) = map state (events p) \<and>
         map row_records (flushed p t1) = map records (events p) \<and>
         map row_comment (flushed p t1) = map comment (events p) \<and>
         events (snd (flush t1 t2 p)) =
           [\<lparr>state = ''Profiler Housekeeping'', comment = None, records = None,
             start = t1, endt = Some t1\<rparr>,
            \<lparr>state = state (last (events p)), comment = comment (last (events p)),
             records = records (last (events p)), start = t2, endt = Some t2\<rparr>]"
  by (simp add: flush_ok[OF assms] flushed_fields)

theorem flush_persists_buffer_witness:
  "fst (flush 2 3 (append 1 ''a'' (Some ''c'') (Some 7) test_profiler)) = Inr () \<and>
   events_tab (durable (db (snd (flush 2 3 (append 1 ''a'' (Some ''c'') (Some 7) test_profiler))))) =
     [\<lparr>row_profile_id = 1, row_state = ''a'', row_started = 996, row_ended = 997,
       row_records = Some 7, row_comment = Some ''c''\<rparr>] \<and>
   events (snd (flush 2 3 (append 1 ''a'' (Some ''c'') (Some 7) test_profiler))) =
     [\<lparr>state = ''Profiler Housekeeping'', comment = None, records = None,
       start = 2, endt = Some 2\<rparr>,
      \<lparr>state = ''a'', comment = Some ''c'', records = Some 7, start = 3, endt = Some 3\<rparr>]"
proof -
  let ?p = "append 1 ''a'' (Some ''c'') (Some 7) test_profiler"
  have ne: "events ?p \<noteq> []" by (simp add: append_eq)
  have ok: "False \<notin> set (take (Suc (length (events ?p))) (script (db ?p)))"
    by (simp add: append_eq test_profiler_def)
  show ?thesis
    using flush_persists_buffer [OF ne ok, of 2 3]
    by (simp add: append_eq test_profiler_def flushed_def row_of_def Event_init_def)
qed

text \<open>
  The claim as stated fails for a buffer of one Event: two Events are left, and the row
  committed is the one of state \<open>a\<close>, with no housekeeping row.
\<close>

theorem flush_leaves_two_events:
  "length (events (snd (flush 2 3 (append 1 ''a'' None None test_profiler)))) = 2 \<and>
   map row_state (events_tab (durable (db (snd (flush 2 3
      (append 1 ''a'' None None test_profiler)))))) = [''a'']"
proof -
  let ?p = "append 1 ''a'' None None test_profiler"
  have ne: "events ?p \<noteq> []" by (simp add: append_eq)
  have ok: "False \<notin> set (take (Suc (length (events ?p))) (script (db ?p)))"
    by (simp add: append_eq test_profiler_def)
  show ?thesis
    using flush_ok [OF ne ok, of 2 3]
    by (simp add: append_eq test_profiler_def flushed_def row_of_def Event_init_def)
qed

lemma take_le_False:
  "n \<le> m \<Longrightarrow> False \<notin> set (take m xs) \<Longrightarrow> False \<notin> set (take n xs)"
  using set_take_subset_set_take [of n m xs] by blast

text \<open>
  C4, as the code has it. After \<^verbatim>\<open>append("Run #0", records=100)\<close>,
  \<^verbatim>\<open>append("Run #1", records=200)\<close> and \<^verbatim>\<open>flush()\<close> on an empty buffer, with the clock
  readings \<open>t0\<close>, \<open>t1\<close>, \<open>t2\<close>, \<open>t3\<close> and three store calls that succeed, two rows are
  committed: one for "Run #0" with 100 records and one for "Run #1" with 200 records.
  The buffer then holds the housekeeping Event and a new Event of state "Run #1".
\<close>

theorem scenario_rows:
  assumes "events p = []"
      and "False \<notin> set (take 3 (script (db p)))"
  shows "fst (flush t2 t3 (append t1 ''Run #1'' None (Some 200)
                 (append t0 ''Run #0'' None (Some 100) p))) = Inr () \<and>
         events_tab (durable (db (snd (flush t2 t3 (append t1 ''Run #1'' None (Some 200)
                 (append t0 ''Run #0'' None (Some 100) p)))))) =
           events_tab (working (db p)) @
           [\<lparr>row_profile_id = pid p, row_state = ''Run #0'',
             row_started = created p + (t0 - offset p),
             row_ended = created p + (t1 - offset p),
             row_records = Some 100, row_comment = None\<rparr>,
            \<lparr>row_profile_id = pid p, row_state = ''Run #1'',
             row_started = created p + (t1 - offset p),
             row_ended = created p + (t2 - offset p),
             row_records = Some 200, row_comment = None\<rparr>] \<and>
         events (snd (flush t2 t3 (append t1 ''Run #1'' None (Some 200)
                 (append t0 ''Run #0'' None (Some 100) p)))) =
           [\<lparr>state = ''Profiler Housekeeping'', comment = None, records = None,
             start = t2, endt = Some t2\<rparr>,
            \<lparr>state = ''Run #1'', comment = None, records = Some 200,
             start = t3, endt = Some t3\<rparr>]"
proof -
  let ?q = "append t1 ''Run #1'' None (Some 200) (append t0 ''Run #0'' None (Some 100) p)"
  have ev: "events ?q =
      [\<lparr>state = ''Run #0'', comment = None, records = Some 100, start = t0, endt = None\<rparr>,
       \<lparr>state = ''Run #1'', comment = None, records = Some 200, start = t1, endt = Some t1\<rparr>]"
    using assms(1) by (simp add: append_eq)
  have fr: "db ?q = db p" "pid ?q = pid p" "created ?q = created p" "offset ?q = offset p"
    by (simp_all add: append_eq)
  have ne: "events ?q \<noteq> []" by (simp add: ev)
  have ok: "False \<notin> set (take (Suc (length (events ?q))) (script (db ?q)))"
    using assms(2) by (simp add: ev fr eval_nat_numeral)
  have fl: "flushed ?q t2 =
           [\<lparr>row_profile_id = pid p, row_state = ''Run #0'',
             row_started = created p + (t0 - offset p),
             row_ended = created p + (t1 - offset p),
             row_records = Some 100, row_comment = None\<rparr>,
            \<lparr>row_profile_id = pid p, row_state = ''Run #1'',
             row_started = created p + (t1 - offset p),
             row_ended = created p + (t2 - offset p),
             row_records = Some 200, row_comment = None\<rparr>]"
    by (simp add: flushed_def ev fr row_of_def Event_init_def)
  show ?thesis
    unfolding flush_ok [OF ne ok] by (simp add: ev fr fl)
qed

theorem scenario_rows_witness:
  "fst (flush 12 13 (append 11 ''Run #1'' None (Some 200)
          (append 10 ''Run #0'' None (Some 100) test_profiler))) = Inr () \<and>
   events_tab (durable (db (snd (flush 12 13 (append 11 ''Run #1'' None (Some 200)
          (append 10 ''Run #0'' None (Some 100) test_profiler)))))) =
     [\<lparr>row_profile_id = 1, row_state = ''Run #0'', row_started = 1005, row_ended = 1006,
       row_records = Some 100, row_comment = None\<rparr>,
      \<lparr>row_profile_id = 1, row_state = ''Run #1'', row_started = 1006, row_ended = 1007,
       row_records = Some 200, row_comment = None\<rparr>] \<and>
   events (snd (flush 12 13 (append 11 ''Run #1'' None (Some 200)
          (append 10 ''Run #0'' None (Some 100) test_profiler)))) =
     [\<lparr>state = ''Profiler Housekeeping'', comment = None, records = None,
       start = 12, endt = Some 12\<rparr>,
      \<lparr>state = ''Run #1'', comment = None, records = Some 200, start = 13, endt = Some 13\<rparr>]"
proof -
  have e: "events test_profiler = []" by (simp add: test_profiler_def)
  have ok: "False \<notin> set (take 3 (script (db test_profiler)))"
    by (simp add: test_profiler_def)
  have v: "pid test_profiler = 1" "created test_profiler = 1000" "offset test_profiler = 5"
    "events_tab (working (db test_profiler)) = []"
    by (simp_all add: test_profiler_def)
  show ?thesis
    using scenario_rows [OF e ok, of 12 13 11 10] by (simp add: v)
qed

text \<open>
  The claim as stated fails at the readings 10, 11, 12, 13: the second row is the one of
  "Run #1", not a housekeeping row, and two Events are left in the buffer.
\<close>

theorem scenario_no_housekeeping_row:
  "map row_state (events_tab (durable (db (snd (flush 12 13 (append 11 ''Run #1'' None (Some 200)
          (append 10 ''Run #0'' None (Some 100) test_profiler))))))) = [''Run #0'', ''Run #1''] \<and>
   map state (events (snd (flush 12 13 (append 11 ''Run #1'' None (Some 200)
          (append 10 ''Run #0'' None (Some 100) test_profiler))))) =
     [''Profiler Housekeeping'', ''Run #1'']"
proof -
  let ?q = "append 11 ''Run #1'' None (Some 200) (append 10 ''Run #0'' None (Some 100) test_profiler)"
  have ne: "events ?q \<noteq> []" by (simp add: append_eq)
  have ok: "False \<notin> set (take (Suc (length (events ?q))) (script (db ?q)))"
    by (simp add: append_eq test_profiler_def)
  show ?thesis
    using flush_ok [OF ne ok, of 12 13]
    by (simp add: append_eq test_profiler_def flushed_def row_of_def Event_init_def)
qed

lemma flush_twice:
  assumes "events p \<noteq> []"
      and "False \<notin> set (take (length (events p) + 4) (script (db p)))"
  shows "length (events (snd (flush t1 t2 p))) = 2 \<and>
         fst (flush t3 t4 (snd (flush t1 t2 p))) = Inr () \<and>
         events_tab (durable (db (snd (flush t3 t4 (snd (flush t1 t2 p)))))) =
           events_tab (durable (db (snd (flush t1 t2 p)))) @
           [\<lparr>row_profile_id = pid p, row_state = ''Profiler Housekeeping'',
             row_started = created p + (t1 - offset p),
             row_ended = created p + (t2 - offset p),
             row_records = None, row_comment = None\<rparr>,
            \<lparr>row_profile_id = pid p, row_state = state (last (events p)),
             row_started = created p + (t2 - offset p),
             row_ended = created p + (t3 - offset p),
             row_records = records (last (events p)),
             row_comment = comment (last (events p))\<rparr>]"
proof -
  let ?N = "length (events p)"
  let ?p1 = "snd (flush t1 t2 p)"
  have ok1: "False \<notin> set (take (Suc ?N) (script (db p)))"
    using take_le_False [of "Suc ?N" "?N + 4" "script (db p)"] assms(2) by simp
  note f1 = flush_ok [OF assms(1) ok1, of t1 t2]
  have ev1: "events ?p1 =
      [\<lparr>state = ''Profiler Housekeeping'', comment = None, records = None,
        start = t1, endt = Some t1\<rparr>,
       \<lparr>state = state (last (events p)), comment = comment (last (events p)),
        records = records (last (events p)), start = t2, endt = Some t2\<rparr>]"
    by (simp add: f1)
  have fr1: "pid ?p1 = pid p" "created ?p1 = created p" "offset ?p1 = offset p"
    "script (db ?p1) = drop (Suc ?N) (script (db p))"
    "working (db ?p1) = durable (db ?p1)"
    by (simp_all add: f1)
  have ne1: "events ?p1 \<noteq> []" by (simp add: ev1)
  have "False \<notin> set (take 3 (drop (Suc ?N) (script (db p))))"
    using take_drop_False [of "Suc ?N" 3 "script (db p)"] assms(2)
    by (simp add: eval_nat_numeral)
  then have ok2: "False \<notin> set (take (Suc (length (events ?p1))) (script (db ?p1)))"
    by (simp add: ev1 fr1 eval_nat_numeral)
  have fl: "flushed ?p1 t3 =
           [\<lparr>row_profile_id = pid p, row_state = ''Profiler Housekeeping'',
             row_started = created p + (t1 - offset p),
             row_ended = created p + (t2 - offset p),
             row_records = None, row_comment = None\<rparr>,
            \<lparr>row_profile_id = pid p, row_state = state (last (events p)),
             row_started = created p + (t2 - offset p),
             row_ended = created p + (t3 - offset p),
             row_records = records (last (events p)),
             row_comment = comment (last (events p))\<rparr>]"
    by (simp add: flushed_def ev1 fr1 row_of_def Event_init_def)
  have "events_tab (durable (db (snd (flush t3 t4 ?p1)))) =
          events_tab (working (db ?p1)) @ flushed ?p1 t3"
       "fst (flush t3 t4 ?p1) = Inr ()"
    by (simp_all add: flush_ok [OF ne1 ok2])
  then show ?thesis
    by (simp add: ev1 fr1 fl)
qed


text \<open>
  C5, as the code has it. After a flush of a non-empty buffer, the buffer holds two Events,
  so that a second flush right after it commits two more rows: the housekeeping interval
  of the first flush, from \<open>t1\<close> to \<open>t2\<close>, and the interval of the resumed Event, from
  \<open>t2\<close> to the start \<open>t3\<close> of the second flush.
\<close>

theorem second_flush_two_rows:
  assumes "events p \<noteq> []"
      and "False \<notin> set (take (length (events p) + 4) (script (db p)))"
  shows "length (events (snd (flush t1 t2 p))) = 2 \<and>
         fst (flush t3 t4 (snd (flush t1 t2 p))) = Inr () \<and>
         events_tab (durable (db (snd (flush t3 t4 (snd (flush t1 t2 p)))))) =
           events_tab (durable (db (snd (flush t1 t2 p)))) @
           [\<lparr>row_profile_id = pid p, row_state = ''Profiler Housekeeping'',
             row_started = created p + (t1 - offset p),
             row_ended = created p + (t2 - offset p),
             row_records = None, row_comment = None\<rparr>,
            \<lparr>row_profile_id = pid p, row_state = state (last (events p)),
             row_started = created p + (t2 - offset p),
             row_ended = created p + (t3 - offset p),
             row_records = records (last (events p)),
             row_comment = comment (last (events p))\<rparr>]"
  using assms by (rule flush_twice)

theorem second_flush_two_rows_witness:
  "length (events (snd (flush 2 3 (append 1 ''a'' None (Some 7) test_profiler)))) = 2 \<and>
   fst (flush 4 5 (snd (flush 2 3 (append 1 ''a'' None (Some 7) test_profiler)))) = Inr () \<and>
   events_tab (durable (db (snd (flush 4 5 (snd (flush 2 3
       (append 1 ''a'' None (Some 7) test_profiler))))))) =
     events_tab (durable (db (snd (flush 2 3 (append 1 ''a'' None (Some 7) test_profiler))))) @
     [\<lparr>row_profile_id = 1, row_state = ''Profiler Housekeeping'',
       row_started = 997, row_ended = 998, row_records = None, row_comment = None\<rparr>,
      \<lparr>row_profile_id = 1, row_state = ''a'',
       row_started = 998, row_ended = 999, row_records = Some 7, row_comment = None\<rparr>]"
proof -
  let ?p = "append 1 ''a'' None (Some 7) test_profiler"
  have ne: "events ?p \<noteq> []" by (simp add: append_eq)
  have ok: "False \<notin> set (take (length (events ?p) + 4) (script (db ?p)))"
    by (simp add: append_eq test_profiler_def)
  have v: "pid ?p = 1" "created ?p = 1000" "offset ?p = 5"
    "state (last (events ?p)) = ''a''" "records (last (events ?p)) = Some 7"
    "comment (last (events ?p)) = None"
    by (simp_all add: append_eq test_profiler_def)
  show ?thesis
    using second_flush_two_rows [OF ne ok, of 2 3 4 5] by (simp add: v)
qed

text \<open>
  The claim as stated fails for a buffer of one Event: the second flush commits two rows,
  not one.
\<close>

theorem second_flush_not_one_row:
  "length (events_tab (durable (db (snd (flush 4 5 (snd (flush 2 3
       (append 1 ''a'' None None test_profiler)))))))) =
   length (events_tab (durable (db (snd (flush 2 3
       (append 1 ''a'' None None test_profiler)))))) + 2"
proof -
  let ?p = "append 1 ''a'' None None test_profiler"
  have ne: "events ?p \<noteq> []" by (simp add: append_eq)
  have ok: "False \<notin> set (take (length (events ?p) + 4) (script (db ?p)))"
    by (simp add: append_eq test_profiler_def)
  show ?thesis
    using flush_twice [OF ne ok, of 2 3 4 5] by simp
qed

section \<open>A flush that fails\<close>

lemma execute_frame:
  "execute s c = (r, c') \<Longrightarrow> durable c' = durable c \<and> closed c' = closed c"
  by (cases "script c") (auto simp: execute_def Let_def split: if_splits)

lemma execute_error:
  "execute s c = (Inl e, c') \<Longrightarrow> e = DatabaseError"
  by (cases "script c") (auto simp: execute_def Let_def split: if_splits)


lemma map_core_update:
  "map core (xs[i := set_end (xs ! i) t]) = map core xs"
  by (cases "i < length xs") (simp_all add: map_update list_update_same_conv list_update_beyond)

lemma flush_rows_frame:
  "durable (db (snd (flush_rows is p))) = durable (db p) \<and>
   closed (db (snd (flush_rows is p))) = closed (db p) \<and>
   pid (snd (flush_rows is p)) = pid p \<and>
   map core (events (snd (flush_rows is p))) = map core (events p)"
proof (induction "is" arbitrary: p)
  case Nil
  show ?case by simp
next
  case (Cons i "is")
  let ?p1 = "p\<lparr>events := (events p)[i := set_end (events p ! i) (start (events p ! (i + 1)))]\<rparr>"
  show ?case
  proof (cases "endt (events ?p1 ! i)")
    case None
    then show ?thesis by (simp add: Let_def map_core_update)
  next
    case (Some e)
    let ?row = "\<lparr>row_profile_id = pid ?p1, row_state = state (events ?p1 ! i),
                  row_started = created ?p1 + (start (events ?p1 ! i) - offset ?p1),
                  row_ended = created ?p1 + (e - offset ?p1),
                  row_records = records (events ?p1 ! i),
                  row_comment = comment (events ?p1 ! i)\<rparr>"
    obtain r c where ex: "execute (Insert_event ?row) (db ?p1) = (r, c)"
      by (cases "execute (Insert_event ?row) (db ?p1)")
    from execute_frame [OF ex] have fr: "durable c = durable (db p)" "closed c = closed (db p)"
      by simp_all
    show ?thesis
    proof (cases r)
      case (Inl err)
      have "flush_rows (i # is) p = (Inl err, ?p1\<lparr>db := c\<rparr>)"
        using Some ex Inl by (simp add: Let_def)
      then show ?thesis by (simp add: fr map_core_update)
    next
      case (Inr u)
      have "flush_rows (i # is) p = flush_rows is (?p1\<lparr>db := c\<rparr>)"
        using Some ex Inr by (simp add: Let_def)
      then show ?thesis using Cons.IH [of "?p1\<lparr>db := c\<rparr>"]
        by (simp add: fr map_core_update)
    qed
  qed
qed




text \<open>A flush of one Event whose insert the store rejects.\<close>

lemma failing_profiler_flush:
  "flush 2 3 failing_profiler =
     (Inl DatabaseError,
      failing_profiler\<lparr>events :=
          [\<lparr>state = ''a'', comment = None, records = None, start = 1, endt = Some 2\<rparr>,
           \<lparr>state = ''Profiler Housekeeping'', comment = None, records = None,
            start = 2, endt = Some 2\<rparr>],
        db := (db failing_profiler)\<lparr>script := [],
          trace := trace (db failing_profiler) @
            [Cursor, Execute (Insert_event \<lparr>row_profile_id = 1, row_state = ''a'',
               row_started = 996, row_ended = 997, row_records = None,
               row_comment = None\<rparr>)]\<rparr>\<rparr>)"
  by (simp add: failing_profiler_def flush_def append_eq test_profiler_def Let_def
      execute_def cursor_def set_end_def)






section \<open>Leaving the scope\<close>

lemma commit_frame:
  "commit c = (r, c') \<Longrightarrow> closed c' = closed c"
  by (cases "script c") (auto simp: commit_def Let_def split: if_splits)

lemma flush_frame:
  "closed (db (snd (flush t1 t2 p))) = closed (db p) \<and> pid (snd (flush t1 t2 p)) = pid p"
proof (cases "events p = []")
  case True
  then show ?thesis by (simp add: flush_def)
next
  case ne: False
  let ?p2 = "(append t1 ''Profiler Housekeeping'' None None p)
               \<lparr>db := cursor (db (append t1 ''Profiler Housekeeping'' None None p))\<rparr>"
  let ?is = "[0..<length (events ?p2) - 1]"
  obtain r p3 where fr: "flush_rows ?is ?p2 = (r, p3)" by (cases "flush_rows ?is ?p2")
  from flush_rows_frame [of ?is ?p2] fr
  have d3: "closed (db p3) = closed (db p)" "pid p3 = pid p"
    by (simp_all add: append_eq cursor_def)
  show ?thesis
  proof (cases r)
    case (Inl err)
    then show ?thesis using ne fr d3 by (simp add: flush_def Let_def)
  next
    case (Inr u)
    let ?p4 = "p3\<lparr>events := drop (length (events p3) - 1) (events p3)\<rparr>"
    obtain r' c where cm: "commit (db ?p4) = (r', c)" by (cases "commit (db ?p4)")
    from commit_frame [OF cm] have cc: "closed c = closed (db p3)" by simp
    show ?thesis
      using ne fr Inr cm cc d3
      by (cases r') (simp_all add: flush_def Let_def append_eq cursor_close_def)
  qed
qed

lemma exit_after_failed_flush:
  "fst (flush t1 t2 p) \<noteq> Inr () \<Longrightarrow> profiler_exit exc t1 t2 ts p = flush t1 t2 p"
  by (cases "flush t1 t2 p"; cases "fst (flush t1 t2 p)") (auto simp: profiler_exit_def)

lemma exit_after_flush:
  assumes "fst (flush t1 t2 p) = Inr ()"
      and "False \<notin> set (take 2 (script (db (snd (flush t1 t2 p)))))"
  shows "profiler_exit exc t1 t2 ts p =
     (Inr (),
      (snd (flush t1 t2 p))\<lparr>db := (db (snd (flush t1 t2 p)))\<lparr>
        durable := apply_statement (Update_ended (pid p) ts)
                     (working (db (snd (flush t1 t2 p)))),
        working := apply_statement (Update_ended (pid p) ts)
                     (working (db (snd (flush t1 t2 p)))),
        closed := True,
        script := drop 2 (script (db (snd (flush t1 t2 p)))),
        trace := trace (db (snd (flush t1 t2 p))) @
                   [Cursor, Execute (Update_ended (pid p) ts), Commit, Cursor_close, Close]\<rparr>\<rparr>)"
proof -
  obtain p1 where f: "flush t1 t2 p = (Inr (), p1)"
    using assms(1) by (cases "flush t1 t2 p") auto
  have pid1: "pid p1 = pid p" using flush_frame [of t1 t2 p] f by simp
  have ok1: "False \<notin> set (take (Suc 1) (script (db p1)))"
    using assms(2) f by (simp add: eval_nat_numeral)
  have ok2: "False \<notin> set (take (Suc 0) (tl (script (db p1))))"
    using ok1 by (cases "script (db p1)") auto
  show ?thesis
    unfolding profiler_exit_def f
    by (simp add: pid1 execute_def commit_def cursor_def cursor_close_def close_def
        next_outcome_ok [OF ok1] next_outcome_ok [OF ok2] Let_def drop_Suc eval_nat_numeral
        del: apply_statement.simps)
qed

text \<open>
  C8, as the code has it. On every exit from the scope, whatever exception the enclosed
  work raised, \<^verbatim>\<open>__exit__\<close> first calls flush. When flush raises, the exception leaves
  \<^verbatim>\<open>__exit__\<close> at once: nothing more is done, the registry row is not updated and the
  connection stays as it was, not released. When flush returns and the update and the
  commit succeed, the registry row of this profile has its end timestamp, committed, and
  the cursor and the connection are closed, in this order.
\<close>

theorem exit_releases_after_success:
  "(fst (flush t1 t2 p) \<noteq> Inr () \<longrightarrow>
      profiler_exit exc t1 t2 ts p = flush t1 t2 p \<and>
      closed (db (snd (profiler_exit exc t1 t2 ts p))) = closed (db p)) \<and>
   (fst (flush t1 t2 p) = Inr () \<and>
    False \<notin> set (take 2 (script (db (snd (flush t1 t2 p))))) \<longrightarrow>
      fst (profiler_exit exc t1 t2 ts p) = Inr () \<and>
      closed (db (snd (profiler_exit exc t1 t2 ts p))) \<and>
      events (snd (profiler_exit exc t1 t2 ts p)) = events (snd (flush t1 t2 p)) \<and>
      durable (db (snd (profiler_exit exc t1 t2 ts p))) =
        apply_statement (Update_ended (pid p) ts) (working (db (snd (flush t1 t2 p)))) \<and>
      trace (db (snd (profiler_exit exc t1 t2 ts p))) =
        trace (db (snd (flush t1 t2 p))) @
        [Cursor, Execute (Update_ended (pid p) ts), Commit, Cursor_close, Close])"
proof (intro conjI impI)
  assume f: "fst (flush t1 t2 p) \<noteq> Inr ()"
  show "profiler_exit exc t1 t2 ts p = flush t1 t2 p"
    by (rule exit_after_failed_flush [OF f])
  then show "closed (db (snd (profiler_exit exc t1 t2 ts p))) = closed (db p)"
    using flush_frame [of t1 t2 p] by simp
next
  assume a: "fst (flush t1 t2 p) = Inr () \<and>
    False \<notin> set (take 2 (script (db (snd (flush t1 t2 p)))))"
  note e = exit_after_flush [OF conjunct1 [OF a] conjunct2 [OF a], of exc ts]
  show "fst (profiler_exit exc t1 t2 ts p) = Inr ()" by (simp add: e)
  show "closed (db (snd (profiler_exit exc t1 t2 ts p)))" by (simp add: e)
  show "events (snd (profiler_exit exc t1 t2 ts p)) = events (snd (flush t1 t2 p))"
    by (simp add: e)
  show "durable (db (snd (profiler_exit exc t1 t2 ts p))) =
        apply_statement (Update_ended (pid p) ts) (working (db (snd (flush t1 t2 p))))"
    by (simp add: e del: apply_statement.simps)
  show "trace (db (snd (profiler_exit exc t1 t2 ts p))) =
        trace (db (snd (flush t1 t2 p))) @
        [Cursor, Execute (Update_ended (pid p) ts), Commit, Cursor_close, Close]"
    by (simp add: e)
qed

theorem exit_releases_after_success_witness:
  "fst (flush 2 3 failing_profiler) \<noteq> Inr () \<and>
   profiler_exit (Some TypeError) 2 3 9 failing_profiler = flush 2 3 failing_profiler \<and>
   \<not> closed (db (snd (profiler_exit (Some TypeError) 2 3 9 failing_profiler))) \<and>
   fst (flush 2 3 test_profiler) = Inr () \<and>
   False \<notin> set (take 2 (script (db (snd (flush 2 3 test_profiler))))) \<and>
   fst (profiler_exit (Some TypeError) 2 3 9 test_profiler) = Inr () \<and>
   closed (db (snd (profiler_exit (Some TypeError) 2 3 9 test_profiler))) \<and>
   profiles_tab (durable (db (snd (profiler_exit (Some TypeError) 2 3 9 test_profiler)))) =
     [\<lparr>prof_id = 1, prof_name = ''Test'', prof_comment = Some ''Sunday afternoon'',
       prof_ended = Some 9\<rparr>]"
proof -
  have a: "fst (flush 2 3 failing_profiler) \<noteq> Inr ()"
    by (simp add: failing_profiler_flush)
  have c: "\<not> closed (db failing_profiler)"
    by (simp add: failing_profiler_def test_profiler_def)
  have f: "flush 2 3 test_profiler = (Inr (), test_profiler)"
    by (simp add: flush_def test_profiler_def)
  have b: "fst (flush 2 3 test_profiler) = Inr () \<and>
    False \<notin> set (take 2 (script (db (snd (flush 2 3 test_profiler)))))"
    by (simp add: f) (simp add: test_profiler_def)
  have w: "apply_statement (Update_ended (pid test_profiler) 9)
             (working (db (snd (flush 2 3 test_profiler)))) =
           \<lparr>profiles_tab = [\<lparr>prof_id = 1, prof_name = ''Test'',
               prof_comment = Some ''Sunday afternoon'', prof_ended = Some 9\<rparr>],
            events_tab = []\<rparr>"
    by (simp add: f) (simp add: test_profiler_def)
  note t1 = exit_releases_after_success [of 2 3 failing_profiler "Some TypeError" 9,
      THEN conjunct1, rule_format, OF a]
  note t2 = exit_releases_after_success [of 2 3 test_profiler "Some TypeError" 9,
      THEN conjunct2, rule_format, OF b]
  have g1: "profiler_exit (Some TypeError) 2 3 9 failing_profiler = flush 2 3 failing_profiler"
    using t1 by (rule conjunct1)
  have g2: "\<not> closed (db (snd (profiler_exit (Some TypeError) 2 3 9 failing_profiler)))"
    using conjunct2 [OF t1] c by simp
  have g3: "fst (profiler_exit (Some TypeError) 2 3 9 test_profiler) = Inr ()"
    using t2 by (rule conjunct1)
  have g4: "closed (db (snd (profiler_exit (Some TypeError) 2 3 9 test_profiler)))"
    using t2 by blast
  have "durable (db (snd (profiler_exit (Some TypeError) 2 3 9 test_profiler))) =
        apply_statement (Update_ended (pid test_profiler) 9)
          (working (db (snd (flush 2 3 test_profiler))))"
    using t2 by blast
  then have g5: "profiles_tab (durable (db (snd (profiler_exit (Some TypeError) 2 3 9
                   test_profiler)))) =
     [\<lparr>prof_id = 1, prof_name = ''Test'', prof_comment = Some ''Sunday afternoon'',
       prof_ended = Some 9\<rparr>]"
    by (simp only: w) simp
  show ?thesis
    using a b g1 g2 g3 g4 g5 by blast
qed

text \<open>
  The claim as stated fails when the insert of flush fails: the connection is not
  released, no \<^verbatim>\<open>close\<close> call was made on it.
\<close>

theorem exit_leaves_connection_open:
  "fst (profiler_exit None 2 3 9 failing_profiler) = Inl DatabaseError \<and>
   \<not> closed (db (snd (profiler_exit None 2 3 9 failing_profiler))) \<and>
   Close \<notin> set (trace (db (snd (profiler_exit None 2 3 9 failing_profiler))))"
  by (simp add: profiler_exit_def failing_profiler_flush)
     (simp add: failing_profiler_def test_profiler_def)

section \<open>Wall-clock conversion\<close>

text \<open>
  The monotonic clock never goes back, so the starts in the buffer are in order: an
  \<^verbatim>\<open>append\<close> at a reading not before the starts already there keeps them so.
\<close>

lemma append_keeps_starts_sorted:
  "sorted (map start (events p)) \<Longrightarrow> \<forall>e\<in>set (events p). start e \<le> now \<Longrightarrow>
   sorted (map start (events (append now st c r p)))"
  by (simp add: append_eq sorted_append)

text \<open>So does a flush that ends at a reading not before the one it began at.\<close>

lemma flush_keeps_starts_sorted:
  assumes "events p \<noteq> []"
      and "False \<notin> set (take (Suc (length (events p))) (script (db p)))"
      and "t1 \<le> t2"
  shows "sorted (map start (events (snd (flush t1 t2 p))))"
  using assms(3) by (simp add: flush_ok [OF assms(1,2)])

lemma sorted_wall_clock:
  "sorted (map start evs) \<Longrightarrow> sorted (map (\<lambda>e. c + (start e - d)) evs)"
  by (induction evs) auto

lemma flushed_ended:
  assumes "events p \<noteq> []"
  shows "map row_ended (flushed p t1) =
   map (\<lambda>t. created p + (t - offset p)) (map start (tl (events p)) @ [t1])"
proof (rule nth_equalityI)
  show "length (map row_ended (flushed p t1)) =
        length (map (\<lambda>t. created p + (t - offset p)) (map start (tl (events p)) @ [t1]))"
    using assms by (cases "events p") (simp_all add: flushed_def)
next
  fix k assume "k < length (map row_ended (flushed p t1))"
  then have k: "k < length (events p)" by (simp add: flushed_def)
  show "map row_ended (flushed p t1) ! k =
        map (\<lambda>t. created p + (t - offset p)) (map start (tl (events p)) @ [t1]) ! k"
  proof (cases "Suc k < length (events p)")
    case True
    then have "k < length (events p) - Suc 0" by simp
    with True show ?thesis using k
      by (simp add: flushed_def row_of_def nth_append nth_tl)
  next
    case False
    with k have e: "Suc k = length (events p)" by simp
    then have "\<not> k < length (events p) - Suc 0" "k - (length (events p) - Suc 0) = 0"
      by simp_all
    with e show ?thesis using k
      by (simp add: flushed_def row_of_def nth_append Event_init_def)
  qed
qed

text \<open>
  The datetime behind each text follows the conversion law. With timestamps taken as
  real numbers, the rows a flush commits hold, for every Event, \<open>created + (t - offset)\<close>
  for its start and for its end, the end being the start of the next Event (of the
  housekeeping Event for the last one); with starts in clock order these datetimes are
  in order too. \<^verbatim>\<open>append\<close> stores the clock reading as it is, does not depend on
  \<open>created\<close> and \<open>offset\<close>, and leaves the store alone. The rounding of a datetime to whole
  microseconds is not part of this.
\<close>

lemma rows_follow_conversion_law:
  assumes "events p \<noteq> []"
      and "False \<notin> set (take (Suc (length (events p))) (script (db p)))"
      and "sorted (map start (events p))"
  shows "events_tab (durable (db (snd (flush t1 t2 p)))) =
           events_tab (working (db p)) @ flushed p t1 \<and>
         map row_started (flushed p t1) = map (\<lambda>e. wall_clock p (start e)) (events p) \<and>
         map row_ended (flushed p t1) =
           map (wall_clock p) (map start (tl (events p)) @ [t1]) \<and>
         sorted (map row_started (flushed p t1)) \<and>
         start (last (events (append now st c r p))) = now \<and>
         events (append now st c r (p\<lparr>created := cw, offset := mo\<rparr>)) =
           events (append now st c r p) \<and>
         db (append now st c r p) = db p"
proof -
  have w: "wall_clock p = (\<lambda>t. created p + (t - offset p))"
    by (simp add: wall_clock_def fun_eq_iff)
  have "sorted (map row_started (flushed p t1))"
    using sorted_wall_clock [OF assms(3), of "created p" "offset p"]
    by (simp add: flushed_fields)
  then show ?thesis
    by (simp add: flush_ok [OF assms(1,2)] flushed_fields flushed_ended [OF assms(1)] w append_eq)
qed

text \<open>
  C7. The text written for a datetime has day and month in each other's place. The start
  of an Event on 4 November 2026 at 00:16:40 is written as \<open>2026-04-11 00:16:40.000000\<close>,
  which is the text of 11 April; the datetime of 11 April is written as the text of
  4 November, so that the texts of two datetimes in order are not in order; and on
  25 November the text \<open>2026-25-11 00:16:40.000000\<close> names no date at all.
\<close>

theorem strftime_swaps_day_and_month:
  "strftime_Ydm \<lparr>dt_year = 2026, dt_month = 11, dt_day = 4, dt_hour = 0, dt_minute = 16,
                  dt_second = 40, dt_microsecond = 0\<rparr> = ''2026-04-11 00:16:40.000000'' \<and>
   strftime_Ydm \<lparr>dt_year = 2026, dt_month = 4, dt_day = 11, dt_hour = 0, dt_minute = 16,
                  dt_second = 40, dt_microsecond = 0\<rparr> = ''2026-11-04 00:16:40.000000'' \<and>
   strftime_Ydm \<lparr>dt_year = 2026, dt_month = 11, dt_day = 25, dt_hour = 0, dt_minute = 16,
                  dt_second = 40, dt_microsecond = 0\<rparr> = ''2026-25-11 00:16:40.000000''"
  by (simp add: strftime_Ydm_def four_digits_def two_digits_def six_digits_def digit_def)

text \<open>
  A commit that fails finds the buffer already cut down to the housekeeping Event
  (the truncation is the statement before the commit): the Event \<open>a\<close> is neither
  committed nor in the buffer any more.
\<close>

lemma commit_failure_truncates:
  "flush 2 3 (failing_profiler\<lparr>db := (db failing_profiler)\<lparr>script := [True, False]\<rparr>\<rparr>) =
     (Inl DatabaseError,
      failing_profiler\<lparr>events :=
          [\<lparr>state = ''Profiler Housekeeping'', comment = None, records = None,
            start = 2, endt = Some 2\<rparr>],
        db := (db failing_profiler)\<lparr>
          working := (working (db failing_profiler))\<lparr>events_tab :=
             [\<lparr>row_profile_id = 1, row_state = ''a'', row_started = 996, row_ended = 997,
               row_records = None, row_comment = None\<rparr>]\<rparr>,
          script := [],
          trace := trace (db failing_profiler) @
            [Cursor, Execute (Insert_event \<lparr>row_profile_id = 1, row_state = ''a'',
               row_started = 996, row_ended = 997, row_records = None,
               row_comment = None\<rparr>), Commit]\<rparr>\<rparr>)"
  by (simp add: failing_profiler_def flush_def append_eq test_profiler_def Let_def
      execute_def commit_def cursor_def set_end_def)

end
